theory Spec2Isabelle
  imports Complex_Main "HOL-Library.Log_Nat"
begin

section \<open>Data model (types.ts)\<close>

text \<open>
  The interfaces of \<^verbatim>\<open>types.ts\<close>. Durations, timestamps and ids are JavaScript numbers that
  only ever hold integers (differences, sums and copies of \<^verbatim>\<open>Date.now()\<close> readings), so they
  are \<^typ>\<open>int\<close>: below \<open>2^53\<close> in magnitude, where they stay, the arithmetic of doubles on
  integers is exact. \<^verbatim>\<open>avgGap\<close> is the quotient of an integer sum by a length, a double that
  need not be an integer; it is kept as the rational number that double is (see
  \<open>to_double\<close> below). The field \<^verbatim>\<open>id\<close> of the two interfaces is written
  \<open>id_iv\<close> and \<open>id_sess\<close>, and \<^verbatim>\<open>SessionRecord.intervals\<close> is \<open>intervals_sess\<close>,
  because record fields are global names.
\<close>

record IntervalRecord =
  id_iv :: int
  duration :: int
  timestamp :: int

record SessionRecord =
  id_sess :: int
  date :: string
  intervals_sess :: "IntervalRecord list"
  totalDuration :: int
  thoughtCount :: nat
  longestGap :: int
  avgGap :: rat

text \<open>
  \<^verbatim>\<open>personalBest\<close> is a \<^verbatim>\<open>number\<close> that is written from \<^verbatim>\<open>parseInt\<close>, so it can be
  \<^verbatim>\<open>NaN\<close>. Every other number of the component stays an integer.
\<close>

datatype jsnum = NaN | Num int

text \<open>\<^verbatim>\<open>duration > personalBest\<close>: every comparison with \<^verbatim>\<open>NaN\<close> is false.\<close>

fun js_gt :: "int \<Rightarrow> jsnum \<Rightarrow> bool" where
  "js_gt d NaN = False"
| "js_gt d (Num b) = (b < d)"

text \<open>\<^verbatim>\<open>Math.max(a, b)\<close> on two numbers: \<^verbatim>\<open>NaN\<close> as soon as one argument is.\<close>

fun js_max :: "jsnum \<Rightarrow> jsnum \<Rightarrow> jsnum" where
  "js_max (Num a) (Num b) = Num (max a b)"
| "js_max _ _ = NaN"

section \<open>Host functions\<close>

text \<open>
  \<^verbatim>\<open>Number.prototype.toString()\<close> on an integer: its decimal digits, with a minus sign
  for a negative value.
\<close>

definition digit_char :: "nat \<Rightarrow> char" where
  "digit_char n = ''0123456789'' ! (n mod 10)"

fun digits :: "nat \<Rightarrow> string" where
  "digits n = (if n < 10 then [digit_char n] else digits (n div 10) @ [digit_char n])"

declare digits.simps [simp del]

definition toString :: "int \<Rightarrow> string" where
  "toString i = (if i < 0 then CHR ''-'' # digits (nat (- i)) else digits (nat i))"

text \<open>
  \<^verbatim>\<open>parseInt(s, 10)\<close> as ECMAScript defines it: leading white space is dropped, one sign
  is read, then the longest prefix of decimal digits; with no digit the result is
  \<^verbatim>\<open>NaN\<close>. Only the white space of ASCII is recognised here (a \<^typ>\<open>char\<close> is a byte).
\<close>

definition is_space :: "char \<Rightarrow> bool" where
  "is_space c = (c \<in> set [CHR 0x09, CHR 0x0A, CHR 0x0B, CHR 0x0C, CHR 0x0D, CHR '' ''])"

definition is_digit :: "char \<Rightarrow> bool" where
  "is_digit c = (48 \<le> (of_char c :: nat) \<and> (of_char c :: nat) \<le> 57)"

definition digit_val :: "char \<Rightarrow> int" where
  "digit_val c = int (of_char c :: nat) - 48"

definition digits_val :: "string \<Rightarrow> int" where
  "digits_val cs = foldl (\<lambda>acc c. 10 * acc + digit_val c) 0 cs"

definition parseInt10 :: "string \<Rightarrow> jsnum" where
  "parseInt10 str =
     (let S = dropWhile is_space str;
          neg = (case S of c # _ \<Rightarrow> c = CHR ''-'' | [] \<Rightarrow> False);
          S' = (case S of c # cs \<Rightarrow> if c = CHR ''-'' \<or> c = CHR ''+'' then cs else S | [] \<Rightarrow> S);
          Z = takeWhile is_digit S'
      in if Z = [] then NaN
         else Num (if neg then - digits_val Z else digits_val Z))"

text \<open>
  The division of two numbers gives the double nearest to the exact quotient, ties going
  to the even significand (IEEE 754 binary64). \<open>binade x\<close> is the exponent of the power of
  two at or below a positive \<open>x\<close>, and \<open>to_double\<close> rounds to 53 significant bits. A
  JavaScript array has fewer than \<open>2^32\<close> elements, so a quotient of a sum by a length is
  zero or lies in the range of normal doubles; overflow and subnormal numbers are left
  out.
\<close>

definition round_half_even :: "rat \<Rightarrow> int" where
  "round_half_even y =
     (let f = \<lfloor>y\<rfloor>; d = y - of_int f
      in if d < 1/2 then f else if 1/2 < d then f + 1 else if even f then f else f + 1)"

definition binade :: "rat \<Rightarrow> int" where
  "binade x =
     (case quotient_of x of
        (p, q) \<Rightarrow> (let k = bitlen p - bitlen q in if 2 powi k \<le> x then k else k - 1))"

definition to_double :: "rat \<Rightarrow> rat" where
  "to_double x =
     (if x = 0 then 0
      else (let e = binade \<bar>x\<bar> - 52
            in sgn x * of_int (round_half_even (\<bar>x\<bar> / 2 powi e)) * 2 powi e))"

text \<open>
  \<^verbatim>\<open>JSON.parse\<close> and \<^verbatim>\<open>JSON.stringify\<close> belong to the host. They are parameters of the
  operations that call them: \<open>JSON_parse\<close> gives \<open>None\<close> where the host throws a
  \<^verbatim>\<open>SyntaxError\<close>.
\<close>

type_synonym json_parse = "string \<Rightarrow> SessionRecord list option"
type_synonym json_stringify = "SessionRecord list \<Rightarrow> string"

section \<open>The component state (App)\<close>

text \<open>
  The \<^verbatim>\<open>useState\<close> cells and the two refs of \<^verbatim>\<open>App\<close>, together with the two entries of
  \<^verbatim>\<open>localStorage\<close> the component reads and writes (\<^verbatim>\<open>getItem\<close> returns \<^verbatim>\<open>null\<close> for a
  missing key: \<open>None\<close>). \<open>timerOn\<close> says whether the interval timer installed through
  \<^verbatim>\<open>timerRef\<close> is armed. Each handler runs to completion on the committed state, as the
  single-threaded event loop has it.
\<close>

record app =
  isActive :: bool
  isPaused :: bool
  currentInterval :: int
  intervals :: "IntervalRecord list"
  sessionStartTime :: "int option"
  personalBest :: jsnum
  allSessions :: "SessionRecord list"
  timerOn :: bool
  lastUpdateRef :: int
  ls_pb :: "string option"
  ls_sessions :: "string option"

definition init_app :: "string option \<Rightarrow> string option \<Rightarrow> app" where
  "init_app pb sess =
     \<lparr> isActive = False, isPaused = False, currentInterval = 0, intervals = [],
       sessionStartTime = None, personalBest = Num 0, allSessions = [],
       timerOn = False, lastUpdateRef = 0, ls_pb = pb, ls_sessions = sess \<rparr>"

text \<open>
  The effect that loads the persisted data on mount. A stored string is used when it is
  truthy: neither \<^verbatim>\<open>null\<close> nor empty.
\<close>

definition load :: "json_parse \<Rightarrow> app \<Rightarrow> app" where
  "load JSON_parse s =
     (let s1 = (case ls_pb s of
                  Some storedPB \<Rightarrow>
                    if storedPB \<noteq> [] then s\<lparr>personalBest := parseInt10 storedPB\<rparr> else s
                | None \<Rightarrow> s)
      in case ls_sessions s1 of
           Some storedSessions \<Rightarrow>
             if storedSessions \<noteq> []
             then (case JSON_parse storedSessions of
                     Some v \<Rightarrow> s1\<lparr>allSessions := v\<rparr>
                   | None \<Rightarrow> s1\<lparr>allSessions := []\<rparr>)
             else s1
         | None \<Rightarrow> s1)"

text \<open>
  The timer effect, with dependencies \<^verbatim>\<open>[isActive, isPaused]\<close>: it runs after a commit
  that changed one of them. Its cleanup clears the timer; an active, unpaused session
  then reads the clock into \<^verbatim>\<open>lastUpdateRef\<close> and arms a new timer.
\<close>

definition timer_effect :: "int \<Rightarrow> app \<Rightarrow> app \<Rightarrow> app" where
  "timer_effect now old new =
     (if isActive new = isActive old \<and> isPaused new = isPaused old then new
      else if isActive new \<and> \<not> isPaused new
           then new\<lparr>timerOn := True, lastUpdateRef := now\<rparr>
           else new\<lparr>timerOn := False\<rparr>)"

text \<open>The timer's callback; a cleared timer does not call it.\<close>

definition tick :: "int \<Rightarrow> app \<Rightarrow> app" where
  "tick now s =
     (if timerOn s
      then (let delta = now - lastUpdateRef s
            in s\<lparr>currentInterval := currentInterval s + delta, lastUpdateRef := now\<rparr>)
      else s)"

definition startSession :: "int \<Rightarrow> int \<Rightarrow> app \<Rightarrow> app" where
  "startSession now now_effect s =
     timer_effect now_effect s
       (s\<lparr>isActive := True, isPaused := False, sessionStartTime := Some now,
          currentInterval := 0, intervals := []\<rparr>)"

definition togglePause :: "int \<Rightarrow> app \<Rightarrow> app" where
  "togglePause now_effect s = timer_effect now_effect s (s\<lparr>isPaused := \<not> isPaused s\<rparr>)"

definition recordThought :: "int \<Rightarrow> app \<Rightarrow> app" where
  "recordThought now s =
     (if \<not> isActive s \<or> isPaused s then s
      else
        (let duration = currentInterval s;
             newRecord = \<lparr> id_iv = int (length (intervals s)) + 1, duration = duration,
                           timestamp = now \<rparr>;
             s1 = s\<lparr>intervals := intervals s @ [newRecord]\<rparr>;
             s2 = (if js_gt duration (personalBest s)
                   then s1\<lparr>personalBest := Num duration, ls_pb := Some (toString duration)\<rparr>
                   else s1)
         in s2\<lparr>currentInterval := 0\<rparr>))"

text \<open>\<^verbatim>\<open>Math.max(...ds, 0)\<close> and the \<^verbatim>\<open>reduce\<close> that sums the durations.\<close>

definition max_with_0 :: "int list \<Rightarrow> int" where
  "max_with_0 ds = foldl max 0 ds"

definition sum_durations :: "IntervalRecord list \<Rightarrow> int" where
  "sum_durations xs = foldl (\<lambda>acc curr. acc + duration curr) 0 xs"

text \<open>
  \<^verbatim>\<open>endSession\<close> reads the clock three times (\<open>now_total\<close>, \<open>now_stamp\<close>, \<open>now_id\<close>) and
  takes the ISO rendering of a fourth reading (\<open>date_iso\<close>). A \<^verbatim>\<open>sessionStartTime\<close> that is
  \<^verbatim>\<open>null\<close> or \<^verbatim>\<open>0\<close> is falsy. The timer effect that follows does not read the clock, the
  session being inactive.
\<close>

definition endSession ::
  "json_stringify \<Rightarrow> int \<Rightarrow> int \<Rightarrow> int \<Rightarrow> string \<Rightarrow> app \<Rightarrow> app" where
  "endSession JSON_stringify now_total now_stamp now_id date_iso s =
     (let totalSessionDuration =
            (case sessionStartTime s of
               Some t \<Rightarrow> if t \<noteq> 0 then now_total - t else 0
             | None \<Rightarrow> 0);
          finalIntervals =
            (if currentInterval s > 500
             then intervals s @ [\<lparr> id_iv = int (length (intervals s)) + 1,
                                   duration = currentInterval s, timestamp = now_stamp \<rparr>]
             else intervals s);
          s1 = s\<lparr>isActive := False, isPaused := False\<rparr>;
          s2 = (if length finalIntervals > 0
                then (let sessionStats =
                            \<lparr> id_sess = now_id, date = date_iso, intervals_sess = finalIntervals,
                              totalDuration = totalSessionDuration,
                              thoughtCount = length finalIntervals,
                              longestGap = max_with_0 (map duration finalIntervals),
                              avgGap = to_double (of_int (sum_durations finalIntervals)
                                                  / of_nat (length finalIntervals)) \<rparr>;
                          updatedSessions = sessionStats # allSessions s
                      in s1\<lparr>allSessions := updatedSessions,
                            ls_sessions := Some (JSON_stringify updatedSessions)\<rparr>)
                else s1)
      in timer_effect now_id s (s2\<lparr>currentInterval := 0, intervals := []\<rparr>))"

definition deleteSession :: "json_stringify \<Rightarrow> int \<Rightarrow> app \<Rightarrow> app" where
  "deleteSession JSON_stringify i s =
     (let updated = filter (\<lambda>r. id_sess r \<noteq> i) (allSessions s)
      in s\<lparr>allSessions := updated, ls_sessions := Some (JSON_stringify updated)\<rparr>)"

section \<open>Runs\<close>

text \<open>The intents of the presentation layer and the timer callback, with their clock readings.\<close>

datatype event =
    Start int int
  | Tick int
  | TogglePause int
  | RecordThought int
  | End int int int string
  | Delete int

fun step :: "json_stringify \<Rightarrow> event \<Rightarrow> app \<Rightarrow> app" where
  "step f (Start now now_effect) s = startSession now now_effect s"
| "step f (Tick now) s = tick now s"
| "step f (TogglePause now_effect) s = togglePause now_effect s"
| "step f (RecordThought now) s = recordThought now s"
| "step f (End now_total now_stamp now_id date_iso) s = endSession f now_total now_stamp now_id date_iso s"
| "step f (Delete i) s = deleteSession f i s"

fun run :: "json_stringify \<Rightarrow> event list \<Rightarrow> app \<Rightarrow> app" where
  "run f [] s = s"
| "run f (e # es) s = run f es (step f e s)"

section \<open>Notions used to state the properties\<close>

text \<open>
  "Never decreases" on a personal best that may be \<^verbatim>\<open>NaN\<close>: a number may only grow, and
  \<^verbatim>\<open>NaN\<close> stays what it is.
\<close>

fun pb_le :: "jsnum \<Rightarrow> jsnum \<Rightarrow> bool" where
  "pb_le NaN NaN = True"
| "pb_le (Num a) (Num b) = (a \<le> b)"
| "pb_le _ _ = False"

text \<open>The timer is armed exactly while the session is active and not paused.\<close>

definition timer_ok :: "app \<Rightarrow> bool" where
  "timer_ok s = (timerOn s = (isActive s \<and> \<not> isPaused s))"

fun is_timer_event :: "event \<Rightarrow> bool" where
  "is_timer_event (Tick t) = True"
| "is_timer_event (TogglePause t) = True"
| "is_timer_event _ = False"

text \<open>
  The specification's account of elapsed time, written without reference to the
  component: over a trace of ticks and pause toggles, a tick adds the wall-clock time
  since the previous tick when the session is running and nothing when it is paused; a
  resume restarts the measurement at the moment of the resume. \<open>since\<close> is the clock
  reading from which the next delta is measured.
\<close>

fun unpaused_deltas :: "bool \<Rightarrow> int \<Rightarrow> event list \<Rightarrow> int" where
  "unpaused_deltas running since [] = 0"
| "unpaused_deltas running since (Tick t # es) =
     (if running then (t - since) + unpaused_deltas True t es
      else unpaused_deltas False since es)"
| "unpaused_deltas running since (TogglePause t # es) =
     (if running then unpaused_deltas False since es else unpaused_deltas True t es)"
| "unpaused_deltas running since (e # es) = unpaused_deltas running since es"

text \<open>The local \<^verbatim>\<open>finalIntervals\<close> of \<^verbatim>\<open>endSession\<close>, as a function of the state.\<close>

definition finalIntervals :: "int \<Rightarrow> app \<Rightarrow> IntervalRecord list" where
  "finalIntervals now_stamp s =
     (if currentInterval s > 500
      then intervals s @ [\<lparr> id_iv = int (length (intervals s)) + 1,
                            duration = currentInterval s, timestamp = now_stamp \<rparr>]
      else intervals s)"

subsection \<open>Concrete hosts, states and traces\<close>

definition no_json :: json_stringify where
  "no_json = (\<lambda>_. [])"

definition reject_all :: json_parse where
  "reject_all = (\<lambda>_. None)"

definition idle_app :: app where
  "idle_app = init_app None None"

text \<open>A running session with 1200 ms, respectively 400 ms, on the open interval.\<close>

definition running_1200 :: app where
  "running_1200 = tick 2200 (startSession 1000 1000 idle_app)"

definition running_400 :: app where
  "running_400 = tick 1400 (startSession 1000 1000 idle_app)"

definition paused_1200 :: app where
  "paused_1200 = togglePause 2250 running_1200"

text \<open>A session with closed intervals of 1200 ms and 700 ms and 400 ms on the open one.\<close>

definition two_thoughts :: app where
  "two_thoughts =
     tick 3300 (recordThought 2900 (tick 2900 (recordThought 2200 running_1200)))"

text \<open>Two sessions begun, marked and ended while the clock reads the same millisecond.\<close>

definition same_ms_events :: "event list" where
  "same_ms_events = [Start 5 5, RecordThought 5, End 5 5 5 ''d'',
                     Start 5 5, RecordThought 5, End 5 5 5 ''d'']"

definition dup_app :: app where
  "dup_app = run no_json same_ms_events idle_app"

definition two_sessions :: app where
  "two_sessions = run no_json [Start 5 5, RecordThought 5, End 5 5 5 ''d'',
                               Start 6 6, RecordThought 6, End 7 7 7 ''e''] idle_app"

text \<open>
  The scenario of the specification, whose times count from the start of the session,
  with the wall clock reading \<open>t0\<close> at that start: ticks every 100 ms, thoughts 1200 ms and
  1900 ms after the start, the end 2300 ms after it.
\<close>

definition scenario :: "int \<Rightarrow> event list" where
  "scenario t0 =
     Start t0 t0 #
     map (\<lambda>k. Tick (t0 + k)) [100, 200, 300, 400, 500, 600, 700, 800, 900, 1000, 1100, 1200] @
     RecordThought (t0 + 1200) #
     map (\<lambda>k. Tick (t0 + k)) [1300, 1400, 1500, 1600, 1700, 1800, 1900] @
     RecordThought (t0 + 1900) #
     map (\<lambda>k. Tick (t0 + k)) [2000, 2100, 2200, 2300] @
     [End (t0 + 2300) (t0 + 2300) (t0 + 2300) ''d'']"

lemmas op_defs =
  init_app_def startSession_def timer_effect_def tick_def togglePause_def
  recordThought_def endSession_def deleteSession_def Let_def

lemmas demo_defs =
  no_json_def idle_app_def running_1200_def running_400_def paused_1200_def
  two_thoughts_def

section \<open>Number division\<close>

lemma round_half_even_err: "\<bar>of_int (round_half_even y) - y\<bar> \<le> 1/2"
proof -
  have lo: "of_int \<lfloor>y\<rfloor> \<le> y" and hi: "y < of_int \<lfloor>y\<rfloor> + 1"
    by linarith+
  show ?thesis
    unfolding round_half_even_def Let_def using lo hi by (auto simp: abs_le_iff)
qed

lemma round_half_even_int [simp]: "round_half_even (of_int z) = z"
  by (simp add: round_half_even_def)

lemma binade_bounds:
  assumes "0 < x"
  shows "2 powi binade x \<le> x" and "x < 2 powi (binade x + 1)"
proof -
  obtain p q where pq: "quotient_of x = (p, q)"
    by (cases "quotient_of x")
  then have q: "0 < q"
    by (rule quotient_of_denom_pos)
  have x: "x = of_int p / of_int q"
    using pq by (rule quotient_of_div)
  with assms q have p: "0 < p"
    by (simp add: zero_less_divide_iff)
  define a where "a = bitlen p"
  define b where "b = bitlen q"
  have a1: "1 \<le> a" and b1: "1 \<le> b"
    using p q bitlen_eq_zero_iff [of p] bitlen_eq_zero_iff [of q]
      bitlen_nonneg [of p] bitlen_nonneg [of q]
    unfolding a_def b_def by linarith+
  have pb: "(2::rat) powi (a - 1) \<le> of_int p" "of_int p < (2::rat) powi a"
   and qb: "(2::rat) powi (b - 1) \<le> of_int q" "of_int q < (2::rat) powi b"
  proof -
    have e: "(2::rat) powi (a - 1) = 2 ^ nat (a - 1)" "(2::rat) powi a = 2 ^ nat a"
            "(2::rat) powi (b - 1) = 2 ^ nat (b - 1)" "(2::rat) powi b = 2 ^ nat b"
      using a1 b1 by (simp_all add: power_int_def)
    from bitlen_bounds [OF p] have "2 ^ nat (a - 1) \<le> p" "p < 2 ^ nat a"
      by (simp_all add: a_def)
    then have "(of_int (2 ^ nat (a - 1)) :: rat) \<le> of_int p"
      "(of_int p :: rat) < of_int (2 ^ nat a)"
      by (simp_all only: of_int_le_iff of_int_less_iff)
    then show "(2::rat) powi (a - 1) \<le> of_int p" "of_int p < (2::rat) powi a"
      by (simp_all add: e)
    from bitlen_bounds [OF q] have "2 ^ nat (b - 1) \<le> q" "q < 2 ^ nat b"
      by (simp_all add: b_def)
    then have "(of_int (2 ^ nat (b - 1)) :: rat) \<le> of_int q"
      "(of_int q :: rat) < of_int (2 ^ nat b)"
      by (simp_all only: of_int_le_iff of_int_less_iff)
    then show "(2::rat) powi (b - 1) \<le> of_int q" "of_int q < (2::rat) powi b"
      by (simp_all add: e)
  qed
  have qpos: "(0::rat) < of_int q"
    using q by simp
  have up: "x < 2 powi (a - b + 1)"
  proof -
    have "of_int p < (2::rat) powi (a - b + 1) * 2 powi (b - 1)"
      using pb(2) by (simp flip: power_int_add)
    also have "\<dots> \<le> 2 powi (a - b + 1) * of_int q"
      using qb(1) by (intro mult_left_mono) simp_all
    finally show ?thesis
      using qpos by (simp add: x pos_divide_less_eq)
  qed
  have low: "2 powi (a - b - 1) \<le> x"
  proof -
    have "(2::rat) powi (a - b - 1) * of_int q \<le> 2 powi (a - b - 1) * 2 powi b"
      using qb(2) by (intro mult_left_mono) simp_all
    also have "\<dots> = 2 powi (a - 1)"
      by (simp flip: power_int_add)
    also have "\<dots> \<le> of_int p"
      by (rule pb(1))
    finally show ?thesis
      using qpos by (simp add: x pos_le_divide_eq)
  qed
  have bin: "binade x = (if 2 powi (a - b) \<le> x then a - b else a - b - 1)"
    by (simp add: binade_def pq a_def b_def Let_def)
  show "2 powi binade x \<le> x"
    using low by (simp add: bin)
  show "x < 2 powi (binade x + 1)"
    using up by (auto simp add: bin not_le)
qed

text \<open>The rounding error is at most half a unit in the last place.\<close>

lemma to_double_error: "\<bar>to_double x - x\<bar> \<le> \<bar>x\<bar> / 2 ^ 53"
proof (cases "x = 0")
  case True
  then show ?thesis by (simp add: to_double_def)
next
  case False
  define a where "a = \<bar>x\<bar>"
  define e where "e = binade a - 52"
  define m where "m = round_half_even (a / 2 powi e)"
  have a: "0 < a"
    using False by (simp add: a_def)
  have pe: "(0::rat) < 2 powi e"
    by simp
  have td: "to_double x = sgn x * (of_int m * 2 powi e)"
    using False by (simp add: to_double_def Let_def a_def e_def m_def mult.assoc)
  have xs: "x = sgn x * a"
    by (simp add: a_def sgn_mult_abs)
  have "to_double x - x = sgn x * (of_int m * 2 powi e - a)"
    by (subst xs) (simp add: td right_diff_distrib)
  then have "\<bar>to_double x - x\<bar> = \<bar>of_int m * 2 powi e - a\<bar>"
    using False by (simp add: abs_mult abs_sgn_eq)
  also have "of_int m * 2 powi e - a = (of_int m - a / 2 powi e) * 2 powi e"
    by (simp add: left_diff_distrib)
  also have "\<bar>\<dots>\<bar> = \<bar>of_int m - a / 2 powi e\<bar> * 2 powi e"
    by (simp add: abs_mult)
  also have "\<dots> \<le> 1/2 * 2 powi e"
    using round_half_even_err [of "a / 2 powi e"] pe unfolding m_def
    by (intro mult_right_mono) simp_all
  also have "\<dots> = 2 powi binade a / 2 ^ 53"
    by (simp add: e_def power_int_diff)
  also have "\<dots> \<le> a / 2 ^ 53"
    using binade_bounds(1) [OF a] by (simp add: divide_right_mono)
  finally show ?thesis
    by (simp add: a_def)
qed

lemma pow2_less_exp: "(2::rat) powi m < 2 powi n \<Longrightarrow> m < n"
  using power_int_increasing [of n m "2::rat"] by (cases "m < n") simp_all

text \<open>An integer below \<open>2^53\<close> in magnitude is a double.\<close>

lemma to_double_int:
  assumes "\<bar>k\<bar> < 2 ^ 53"
  shows "to_double (of_int k) = of_int k"
proof (cases "k = 0")
  case True
  then show ?thesis by (simp add: to_double_def)
next
  case False
  define a :: rat where "a = \<bar>of_int k\<bar>"
  have a: "0 < a"
    using False by (simp add: a_def)
  have a53: "a < 2 powi 53"
  proof -
    have "(of_int \<bar>k\<bar> :: rat) < of_int (2 ^ 53)"
      using assms by (simp only: of_int_less_iff)
    then show ?thesis by (simp add: a_def)
  qed
  have "(2::rat) powi binade a < 2 powi 53"
    using binade_bounds(1) [OF a] a53 by simp
  then have "binade a < 53"
    by (rule pow2_less_exp)
  then have "0 \<le> 52 - binade a"
    by simp
  then obtain n where n: "52 - binade a = int n"
    by (rule nonneg_int_cases)
  have "a / 2 powi (binade a - 52) = a * 2 powi (52 - binade a)"
    by (simp add: power_int_diff field_simps)
  also have "\<dots> = a * 2 ^ n"
    by (simp only: n power_int_of_nat)
  also have "\<dots> = of_int (\<bar>k\<bar> * 2 ^ n)"
    by (simp add: a_def)
  finally have "round_half_even (a / 2 powi (binade a - 52)) = \<bar>k\<bar> * 2 ^ n"
    by (simp only: round_half_even_int)
  then have "to_double (of_int k)
      = sgn (of_int k) * (of_int \<bar>k\<bar> * (2 ^ n * 2 powi (binade a - 52)))"
    using False by (simp add: to_double_def Let_def a_def mult.assoc)
  also have "(2::rat) ^ n * 2 powi (binade a - 52) = 1"
  proof -
    have "(2::rat) ^ n * 2 powi (binade a - 52) = 2 powi (int n) * 2 powi (binade a - 52)"
      by (simp only: power_int_of_nat)
    also have "\<dots> = 2 powi (int n + (binade a - 52))"
      by (simp add: power_int_add)
    also have "int n + (binade a - 52) = 0"
      using n by simp
    finally show ?thesis by simp
  qed
  finally have "to_double (of_int k) = sgn (of_int k) * \<bar>of_int k :: rat\<bar>"
    by simp
  then show ?thesis
    by (simp only: sgn_mult_abs)
qed

lemma to_double_950 [simp]: "to_double 950 = 950"
  using to_double_int [of 950] by simp

section \<open>Personal best\<close>

lemma pb_le_refl: "pb_le a a"
  by (cases a) simp_all

lemma pb_le_trans: "pb_le a b \<Longrightarrow> pb_le b c \<Longrightarrow> pb_le a c"
  by (cases a; cases b; cases c) simp_all

lemma personalBest_timer_effect [simp]:
  "personalBest (timer_effect now old new) = personalBest new"
  by (simp add: timer_effect_def)

lemma personalBest_recordThought:
  "personalBest (recordThought now s) =
     (if isActive s \<and> \<not> isPaused s \<and> js_gt (currentInterval s) (personalBest s)
      then Num (currentInterval s) else personalBest s)"
  by (simp add: recordThought_def Let_def)

lemma personalBest_endSession:
  "personalBest (endSession f a b c d s) = personalBest s"
  by (simp add: endSession_def Let_def)

lemma pb_le_step: "pb_le (personalBest s) (personalBest (step f e s))"
proof (cases e)
  case (RecordThought now)
  then show ?thesis
    by (cases "personalBest s") (simp_all add: personalBest_recordThought)
qed (simp_all add: pb_le_refl startSession_def tick_def Let_def togglePause_def
      personalBest_endSession deleteSession_def)

lemma pb_le_run: "pb_le (personalBest s) (personalBest (run f evs s))"
proof (induction evs arbitrary: s)
  case Nil
  show ?case by (simp add: pb_le_refl)
next
  case (Cons e es)
  have "pb_le (personalBest s) (personalBest (step f e s))"
    by (rule pb_le_step)
  moreover have "pb_le (personalBest (step f e s)) (personalBest (run f es (step f e s)))"
    by (rule Cons.IH)
  ultimately show ?case by (simp add: pb_le_trans)
qed

text \<open>
  C6. Over every sequence of operations (start, tick, pause toggle, recorded thought, end,
  delete) the personal best never decreases. A thought recorded in a running session
  considers the open interval's duration \<open>x\<close> against the current best \<open>b\<close>: afterwards the
  best is \<^verbatim>\<open>Math.max(b, x)\<close>, and it has changed exactly when \<open>x > b\<close>.
\<close>

theorem personalBest_monotone_and_consider:
  "pb_le (personalBest s) (personalBest (run f evs s)) \<and>
   (isActive s \<and> \<not> isPaused s \<longrightarrow>
      personalBest (recordThought now s) = js_max (personalBest s) (Num (currentInterval s)) \<and>
      (personalBest (recordThought now s) \<noteq> personalBest s
         \<longleftrightarrow> js_gt (currentInterval s) (personalBest s)))"
proof -
  have "isActive s \<and> \<not> isPaused s \<Longrightarrow>
      personalBest (recordThought now s) = js_max (personalBest s) (Num (currentInterval s))"
    by (cases "personalBest s") (auto simp add: personalBest_recordThought)
  moreover have "isActive s \<and> \<not> isPaused s \<Longrightarrow>
      (personalBest (recordThought now s) \<noteq> personalBest s
         \<longleftrightarrow> js_gt (currentInterval s) (personalBest s))"
    by (cases "personalBest s") (auto simp add: personalBest_recordThought)
  ultimately show ?thesis using pb_le_run by blast
qed

theorem personalBest_monotone_and_consider_witness:
  "isActive running_1200 \<and> \<not> isPaused running_1200 \<and>
   personalBest running_1200 = Num 0 \<and> currentInterval running_1200 = 1200 \<and>
   personalBest (recordThought 2200 running_1200) = Num 1200 \<and>
   pb_le (Num 0)
     (personalBest (run no_json [RecordThought 2200, Tick 2300, RecordThought 2300,
                                 End 2300 2300 2300 ''d'', Delete 2300] running_1200))"
  using personalBest_monotone_and_consider
    [of running_1200 no_json
        "[RecordThought 2200, Tick 2300, RecordThought 2300, End 2300 2300 2300 ''d'', Delete 2300]"
        2200]
  by (simp add: demo_defs op_defs)

text \<open>
  C1. The claim is that ending a session considers the interval it folds in for the
  personal best. \<^verbatim>\<open>endSession\<close> never writes the personal best: here a session with no
  recorded thought and 1200 ms on the open interval is ended while the best is 0. The
  archived session holds the 1200 ms interval and has \<^verbatim>\<open>longestGap\<close> 1200, and the personal
  best is still 0, in memory and in storage.
\<close>

theorem endSession_leaves_personalBest:
  "isActive running_1200 \<and> intervals running_1200 = [] \<and>
   currentInterval running_1200 = 1200 \<and> personalBest running_1200 = Num 0 \<and>
   map duration (intervals_sess (hd (allSessions
      (endSession no_json 2200 2200 2200 ''d'' running_1200)))) = [1200] \<and>
   longestGap (hd (allSessions (endSession no_json 2200 2200 2200 ''d'' running_1200))) = 1200 \<and>
   personalBest (endSession no_json 2200 2200 2200 ''d'' running_1200) = Num 0 \<and>
   ls_pb (endSession no_json 2200 2200 2200 ''d'' running_1200) = None"
  by (simp add: demo_defs op_defs max_with_0_def)

section \<open>Loading persisted state\<close>

lemma load_malformed_archive:
  "JSON_parse str = None \<Longrightarrow> allSessions (load JSON_parse (init_app pb (Some str))) = []"
  by (cases pb) (simp_all add: load_def init_app_def Let_def)

text \<open>A personal best of \<^verbatim>\<open>NaN\<close> is never replaced, whatever happens afterwards.\<close>

lemma personalBest_NaN_sticks:
  "personalBest s = NaN \<Longrightarrow> personalBest (run f evs s) = NaN"
  using pb_le_run [of s f evs] by (cases "personalBest (run f evs s)") simp_all

text \<open>
  C4. The claim is that a malformed stored personal best is replaced by zero, as a
  malformed stored archive is replaced by the empty list. The archive is (the
  \<^verbatim>\<open>try\<close>/\<^verbatim>\<open>catch\<close> around \<^verbatim>\<open>JSON.parse\<close>), the personal best is not: the stored string
  \<^verbatim>\<open>abc\<close> makes \<^verbatim>\<open>parseInt\<close> return \<^verbatim>\<open>NaN\<close>, which becomes the personal best.
\<close>

theorem load_malformed_personalBest:
  "personalBest (load reject_all (init_app (Some ''abc'') (Some ''{''))) = NaN \<and>
   allSessions (load reject_all (init_app (Some ''abc'') (Some ''{''))) = []"
  by (simp add: load_def reject_all_def parseInt10_def is_space_def is_digit_def init_app_def)

section \<open>Recording a thought\<close>

lemma flags_recordThought [simp]:
  "isActive (recordThought now s) = isActive s"
  "isPaused (recordThought now s) = isPaused s"
  by (simp_all add: recordThought_def Let_def)

lemma intervals_recordThought:
  "isActive s \<Longrightarrow> \<not> isPaused s \<Longrightarrow>
   intervals (recordThought now s) =
     intervals s @ [\<lparr> id_iv = int (length (intervals s)) + 1,
                       duration = currentInterval s, timestamp = now \<rparr>]"
  by (simp add: recordThought_def Let_def)

lemma currentInterval_recordThought:
  "isActive s \<Longrightarrow> \<not> isPaused s \<Longrightarrow> currentInterval (recordThought now s) = 0"
  by (simp add: recordThought_def Let_def)

text \<open>
  C7. A thought signalled while no session is active, or while the session is paused, is
  ignored: the whole state (closed intervals, open-interval elapsed time, personal best,
  archive, storage) is returned as it was, and nothing is raised.
\<close>

theorem recordThought_rejected:
  "\<not> isActive s \<or> isPaused s \<Longrightarrow> recordThought now s = s"
  by (simp add: recordThought_def)

theorem recordThought_rejected_witness:
  "\<not> isActive idle_app \<and> recordThought 5 idle_app = idle_app \<and>
   isActive paused_1200 \<and> isPaused paused_1200 \<and>
   recordThought 2300 paused_1200 = paused_1200"
  using recordThought_rejected [of idle_app 5] recordThought_rejected [of paused_1200 2300]
  by (simp add: demo_defs op_defs)

section \<open>Ending a session\<close>

lemma foldl_max_Max: "foldl max a ds = Max (insert a (set ds))"
proof (induction ds arbitrary: a)
  case Nil
  show ?case by simp
next
  case (Cons d ds)
  have "Max (insert (max a d) (set ds)) = Max (insert a (insert d (set ds)))"
    by (cases "set ds = {}") (simp_all add: max.assoc)
  with Cons show ?case by simp
qed

lemma max_with_0_nonneg:
  assumes "ds \<noteq> []" and "\<forall>d \<in> set ds. 0 \<le> d"
  shows "max_with_0 ds = Max (set ds)"
proof -
  from assms obtain d where "d \<in> set ds" "0 \<le> d"
    by (cases ds) auto
  then have "0 \<le> Max (set ds)"
    by (meson List.finite_set Max_ge order_trans)
  then have "Max (insert 0 (set ds)) = Max (set ds)"
    using assms(1) by (simp add: max_def)
  then show ?thesis
    by (simp add: max_with_0_def foldl_max_Max)
qed

lemma foldl_add_duration:
  "foldl (\<lambda>acc curr. acc + duration curr) a xs = a + sum_list (map duration xs)"
  by (induction xs arbitrary: a) simp_all

lemma sum_durations_sum_list: "sum_durations xs = sum_list (map duration xs)"
  by (simp add: sum_durations_def foldl_add_duration)

lemma allSessions_endSession:
  "allSessions (endSession f a b c d s) =
     (if finalIntervals b s \<noteq> []
      then \<lparr> id_sess = c, date = d, intervals_sess = finalIntervals b s,
             totalDuration = (case sessionStartTime s of
                                Some t \<Rightarrow> if t \<noteq> 0 then a - t else 0
                              | None \<Rightarrow> 0),
             thoughtCount = length (finalIntervals b s),
             longestGap = max_with_0 (map duration (finalIntervals b s)),
             avgGap = to_double (of_int (sum_durations (finalIntervals b s))
                                   / of_nat (length (finalIntervals b s))) \<rparr> # allSessions s
      else allSessions s)"
  by (simp add: endSession_def timer_effect_def Let_def finalIntervals_def)

lemma ls_sessions_endSession:
  "ls_sessions (endSession f a b c d s) =
     (if finalIntervals b s \<noteq> []
      then Some (f (allSessions (endSession f a b c d s)))
      else ls_sessions s)"
  by (simp add: endSession_def timer_effect_def Let_def finalIntervals_def)

text \<open>
  C2. Ending a session applies the fixed 500 ms threshold to the open interval. Above
  500 ms one record is archived whose intervals are the closed ones followed by a
  synthetic interval with the elapsed time as duration and the next id; at 500 ms or
  below nothing is appended to the closed intervals. With no closed interval, an elapsed
  time above 500 ms archives exactly one session, of thought count 1, and an elapsed
  time of at most 500 ms leaves the archive and its stored copy unchanged.
\<close>

theorem endSession_threshold:
  "(500 < currentInterval s \<longrightarrow>
      (\<exists>r. allSessions (endSession f a b c d s) = r # allSessions s \<and>
           intervals_sess r =
             intervals s @ [\<lparr> id_iv = int (length (intervals s)) + 1,
                               duration = currentInterval s, timestamp = b \<rparr>] \<and>
           thoughtCount r = length (intervals s) + 1)) \<and>
   (currentInterval s \<le> 500 \<and> intervals s \<noteq> [] \<longrightarrow>
      (\<exists>r. allSessions (endSession f a b c d s) = r # allSessions s \<and>
           intervals_sess r = intervals s)) \<and>
   (intervals s = [] \<and> 500 < currentInterval s \<longrightarrow>
      length (allSessions (endSession f a b c d s)) = length (allSessions s) + 1 \<and>
      thoughtCount (hd (allSessions (endSession f a b c d s))) = 1) \<and>
   (intervals s = [] \<and> currentInterval s \<le> 500 \<longrightarrow>
      allSessions (endSession f a b c d s) = allSessions s \<and>
      ls_sessions (endSession f a b c d s) = ls_sessions s)"
  by (simp add: allSessions_endSession ls_sessions_endSession finalIntervals_def)

theorem endSession_threshold_witness:
  "intervals running_1200 = [] \<and> 500 < currentInterval running_1200 \<and>
   length (allSessions (endSession no_json 2200 2200 2200 ''d'' running_1200)) = 1 \<and>
   thoughtCount (hd (allSessions (endSession no_json 2200 2200 2200 ''d'' running_1200))) = 1 \<and>
   intervals_sess (hd (allSessions (endSession no_json 2200 2200 2200 ''d'' running_1200)))
     = [\<lparr> id_iv = 1, duration = 1200, timestamp = 2200 \<rparr>] \<and>
   intervals running_400 = [] \<and> currentInterval running_400 \<le> 500 \<and>
   allSessions (endSession no_json 1400 1400 1400 ''d'' running_400) = [] \<and>
   intervals (recordThought 2200 running_1200) \<noteq> [] \<and>
   currentInterval (recordThought 2200 running_1200) \<le> 500 \<and>
   map duration (intervals_sess (hd (allSessions
      (endSession no_json 2200 2200 2200 ''d'' (recordThought 2200 running_1200))))) = [1200]"
  using endSession_threshold [of running_1200 no_json 2200 2200 2200 "''d''"]
        endSession_threshold [of running_400 no_json 1400 1400 1400 "''d''"]
        endSession_threshold [of "recordThought 2200 running_1200" no_json 2200 2200 2200 "''d''"]
  by (simp add: demo_defs op_defs)

text \<open>
  C3. A session is finalized from the intervals \<open>finalIntervals\<close> (the closed ones and, above
  the threshold, the open one), which are not empty, with durations \<open>d1..dn\<close> that are not
  negative, and its start was stamped with a wall-clock reading \<open>t\<close> (milliseconds since
  the epoch, so not 0). The archived record then has thought count \<open>n\<close>, longest gap
  \<open>max(d1..dn)\<close>, total duration the end reading minus \<open>t\<close>, and as average gap the
  quotient \<open>(d1 + ... + dn) / n\<close> as JavaScript divides: the double nearest to the mean,
  within a relative error of \<open>2^-53\<close> of it, and the mean itself when that is an integer
  below \<open>2^53\<close>. In the scenario (start, thoughts 1200 ms and 1900 ms later, end 2300 ms
  later, whatever the clock read at the start) the session has 2 intervals, longest gap
  1200, average gap 950 and total duration 2300.
\<close>

theorem endSession_statistics:
  "(finalIntervals b s \<noteq> [] \<and> (\<forall>x \<in> set (finalIntervals b s). 0 \<le> duration x) \<and>
    sessionStartTime s = Some t \<and> t \<noteq> 0 \<longrightarrow>
      (\<exists>r. allSessions (endSession f a b c d s) = r # allSessions s \<and>
           intervals_sess r = finalIntervals b s \<and>
           thoughtCount r = length (finalIntervals b s) \<and>
           longestGap r = Max (set (map duration (finalIntervals b s))) \<and>
           avgGap r = to_double (of_int (sum_list (map duration (finalIntervals b s)))
                                  / of_nat (length (finalIntervals b s))) \<and>
           \<bar>avgGap r - of_int (sum_list (map duration (finalIntervals b s)))
                          / of_nat (length (finalIntervals b s))\<bar>
             \<le> \<bar>of_int (sum_list (map duration (finalIntervals b s)))
                   / of_nat (length (finalIntervals b s))\<bar> / 2 ^ 53 \<and>
           (\<forall>m. \<bar>m\<bar> < 2 ^ 53 \<and>
                 of_int m = (of_int (sum_list (map duration (finalIntervals b s))) :: rat)
                              / of_nat (length (finalIntervals b s)) \<longrightarrow>
                 avgGap r = of_int m) \<and>
           totalDuration r = a - t)) \<and>
   (t0 \<noteq> 0 \<longrightarrow>
      allSessions (run f (scenario t0) idle_app) =
        [\<lparr> id_sess = t0 + 2300, date = ''d'',
           intervals_sess = [\<lparr> id_iv = 1, duration = 1200, timestamp = t0 + 1200 \<rparr>,
                             \<lparr> id_iv = 2, duration = 700, timestamp = t0 + 1900 \<rparr>],
           totalDuration = 2300, thoughtCount = 2, longestGap = 1200, avgGap = 950 \<rparr>])"
proof -
  define ds where "ds = map duration (finalIntervals b s)"
  define mean :: rat where "mean = of_int (sum_list ds) / of_nat (length (finalIntervals b s))"
  have stats: "\<exists>r. allSessions (endSession f a b c d s) = r # allSessions s \<and>
           intervals_sess r = finalIntervals b s \<and>
           thoughtCount r = length (finalIntervals b s) \<and>
           longestGap r = Max (set ds) \<and>
           avgGap r = to_double mean \<and>
           \<bar>avgGap r - mean\<bar> \<le> \<bar>mean\<bar> / 2 ^ 53 \<and>
           (\<forall>m. \<bar>m\<bar> < 2 ^ 53 \<and> of_int m = mean \<longrightarrow> avgGap r = of_int m) \<and>
           totalDuration r = a - t"
    if ne: "finalIntervals b s \<noteq> []"
      and nonneg: "\<forall>x \<in> set (finalIntervals b s). 0 \<le> duration x"
      and start: "sessionStartTime s = Some t" "t \<noteq> 0"
  proof -
    define r where "r =
      \<lparr> id_sess = c, date = d, intervals_sess = finalIntervals b s,
        totalDuration = (case sessionStartTime s of
                           Some t \<Rightarrow> if t \<noteq> 0 then a - t else 0
                         | None \<Rightarrow> 0),
        thoughtCount = length (finalIntervals b s),
        longestGap = max_with_0 (map duration (finalIntervals b s)),
        avgGap = to_double (of_int (sum_durations (finalIntervals b s))
                              / of_nat (length (finalIntervals b s))) \<rparr>"
    have archived: "allSessions (endSession f a b c d s) = r # allSessions s"
      using ne by (simp add: allSessions_endSession r_def)
    have ivs: "intervals_sess r = finalIntervals b s"
      and count: "thoughtCount r = length (finalIntervals b s)"
      by (simp_all add: r_def)
    have "max_with_0 ds = Max (set ds)"
      unfolding ds_def using ne nonneg by (intro max_with_0_nonneg) auto
    then have longest: "longestGap r = Max (set ds)"
      by (simp add: r_def ds_def)
    have avg: "avgGap r = to_double mean"
      by (simp add: r_def sum_durations_sum_list ds_def mean_def)
    have err: "\<bar>avgGap r - mean\<bar> \<le> \<bar>mean\<bar> / 2 ^ 53"
      unfolding avg by (rule to_double_error)
    have exact: "\<forall>m. \<bar>m\<bar> < 2 ^ 53 \<and> of_int m = mean \<longrightarrow> avgGap r = of_int m"
    proof (intro allI impI)
      fix m :: int
      assume m: "\<bar>m\<bar> < 2 ^ 53 \<and> of_int m = mean"
      then have "to_double (of_int m) = of_int m"
        by (intro to_double_int) simp
      with m show "avgGap r = of_int m"
        by (simp add: avg)
    qed
    have total: "totalDuration r = a - t"
      using start by (simp add: r_def)
    from archived ivs count longest avg err exact total show ?thesis
      by blast
  qed
  have scen: "allSessions (run f (scenario t0) idle_app) =
        [\<lparr> id_sess = t0 + 2300, date = ''d'',
           intervals_sess = [\<lparr> id_iv = 1, duration = 1200, timestamp = t0 + 1200 \<rparr>,
                             \<lparr> id_iv = 2, duration = 700, timestamp = t0 + 1900 \<rparr>],
           totalDuration = 2300, thoughtCount = 2, longestGap = 1200, avgGap = 950 \<rparr>]"
    if "t0 \<noteq> 0"
    using that by (simp add: scenario_def demo_defs op_defs max_with_0_def sum_durations_def)
  from stats scen show ?thesis
    unfolding ds_def mean_def by blast
qed

theorem endSession_statistics_witness:
  "map duration (finalIntervals 3300 two_thoughts) = [1200, 700] \<and>
   sessionStartTime two_thoughts = Some 1000 \<and>
   allSessions (endSession no_json 3300 3300 3300 ''d'' two_thoughts) =
     [\<lparr> id_sess = 3300, date = ''d'',
        intervals_sess = [\<lparr> id_iv = 1, duration = 1200, timestamp = 2200 \<rparr>,
                          \<lparr> id_iv = 2, duration = 700, timestamp = 2900 \<rparr>],
        totalDuration = 2300, thoughtCount = 2, longestGap = 1200, avgGap = 950 \<rparr>] \<and>
   allSessions (run no_json (scenario 1700000000000) idle_app) =
     [\<lparr> id_sess = 1700000002300, date = ''d'',
        intervals_sess = [\<lparr> id_iv = 1, duration = 1200, timestamp = 1700000001200 \<rparr>,
                          \<lparr> id_iv = 2, duration = 700, timestamp = 1700000001900 \<rparr>],
        totalDuration = 2300, thoughtCount = 2, longestGap = 1200, avgGap = 950 \<rparr>]"
  using endSession_statistics
          [of 3300 two_thoughts 1000 no_json 3300 3300 "''d''" 1700000000000]
  by (simp add: finalIntervals_def scenario_def demo_defs op_defs)

text \<open>
  C10. Live recording has no minimum duration. In a running session a recorded thought
  appends an interval whose duration is the open-interval elapsed time, whatever it is,
  and a second thought with no tick in between appends an interval of 0 ms. Ending the
  session keeps every closed interval, short ones included: the threshold bears on the
  open interval only.
\<close>

theorem recordThought_no_threshold:
  "(isActive s \<and> \<not> isPaused s \<longrightarrow>
      intervals (recordThought now s) =
        intervals s @ [\<lparr> id_iv = int (length (intervals s)) + 1,
                          duration = currentInterval s, timestamp = now \<rparr>] \<and>
      intervals (recordThought now' (recordThought now s)) =
        intervals s @ [\<lparr> id_iv = int (length (intervals s)) + 1,
                          duration = currentInterval s, timestamp = now \<rparr>,
                       \<lparr> id_iv = int (length (intervals s)) + 2,
                          duration = 0, timestamp = now' \<rparr>]) \<and>
   (intervals s \<noteq> [] \<longrightarrow>
      (\<exists>r. allSessions (endSession f a b c d s) = r # allSessions s \<and>
           take (length (intervals s)) (intervals_sess r) = intervals s))"
proof -
  have "isActive s \<and> \<not> isPaused s \<Longrightarrow>
      intervals (recordThought now' (recordThought now s)) =
        intervals s @ [\<lparr> id_iv = int (length (intervals s)) + 1,
                          duration = currentInterval s, timestamp = now \<rparr>,
                       \<lparr> id_iv = int (length (intervals s)) + 2,
                          duration = 0, timestamp = now' \<rparr>]"
    by (simp add: intervals_recordThought currentInterval_recordThought)
  moreover have "intervals s \<noteq> [] \<Longrightarrow>
      (\<exists>r. allSessions (endSession f a b c d s) = r # allSessions s \<and>
           take (length (intervals s)) (intervals_sess r) = intervals s)"
    by (simp add: allSessions_endSession finalIntervals_def)
  ultimately show ?thesis
    by (simp add: intervals_recordThought)
qed

theorem recordThought_no_threshold_witness:
  "isActive (startSession 1000 1000 idle_app) \<and> \<not> isPaused (startSession 1000 1000 idle_app) \<and>
   currentInterval (startSession 1000 1000 idle_app) = 0 \<and>
   intervals (recordThought 1000 (startSession 1000 1000 idle_app)) =
     [\<lparr> id_iv = 1, duration = 0, timestamp = 1000 \<rparr>] \<and>
   intervals (recordThought 1001 (recordThought 1000 (startSession 1000 1000 idle_app))) =
     [\<lparr> id_iv = 1, duration = 0, timestamp = 1000 \<rparr>,
      \<lparr> id_iv = 2, duration = 0, timestamp = 1001 \<rparr>] \<and>
   map duration (intervals_sess (hd (allSessions
     (endSession no_json 1002 1002 1002 ''d''
        (recordThought 1000 (startSession 1000 1000 idle_app)))))) = [0]"
  using recordThought_no_threshold
          [of "startSession 1000 1000 idle_app" 1000 1001 no_json 0 0 0 "[]"]
        recordThought_no_threshold
          [of "recordThought 1000 (startSession 1000 1000 idle_app)" 0 0
              no_json 1002 1002 1002 "''d''"]
  by (simp add: demo_defs op_defs)

section \<open>Deleting a session\<close>

lemma length_filter_distinct_id:
  "distinct (map id_sess xs) \<Longrightarrow> i \<in> set (map id_sess xs) \<Longrightarrow>
   length (filter (\<lambda>r. id_sess r \<noteq> i) xs) + 1 = length xs"
proof (induction xs)
  case Nil
  then show ?case by simp
next
  case (Cons x xs)
  show ?case
  proof (cases "id_sess x = i")
    case True
    with Cons.prems have "i \<notin> set (map id_sess xs)"
      by auto
    then have "filter (\<lambda>r. id_sess r \<noteq> i) xs = xs"
      by (auto simp add: filter_id_conv)
    with True show ?thesis by simp
  next
    case False
    with Cons show ?thesis by auto
  qed
qed

text \<open>
  C5, as stated: deleting an id that is present removes exactly one record. Session ids
  are clock readings, and two sessions ended within one millisecond share theirs; the
  filter then removes both.
\<close>

theorem deleteSession_removes_two_counterexample:
  "length (allSessions dup_app) = 2 \<and>
   id_sess (hd (allSessions dup_app)) = 5 \<and>
   hd (allSessions dup_app) \<in> set (allSessions dup_app) \<and>
   length (allSessions (deleteSession no_json 5 dup_app)) = 0"
  by (simp add: dup_app_def same_ms_events_def demo_defs op_defs max_with_0_def
        sum_durations_def)

text \<open>
  C5, amended. Deleting an id keeps, in order, the records with another id and removes
  every record with that id: exactly one when the ids of the archive are distinct and
  the id is present. When no record has the id the archive is unchanged. Deleting twice
  gives the same state as deleting once.
\<close>

theorem deleteSession_filter_idempotent:
  "allSessions (deleteSession f i s) = filter (\<lambda>r. id_sess r \<noteq> i) (allSessions s) \<and>
   length (allSessions s) =
     length (allSessions (deleteSession f i s))
       + length (filter (\<lambda>r. id_sess r = i) (allSessions s)) \<and>
   (distinct (map id_sess (allSessions s)) \<and> i \<in> set (map id_sess (allSessions s)) \<longrightarrow>
      length (allSessions (deleteSession f i s)) + 1 = length (allSessions s)) \<and>
   (i \<notin> set (map id_sess (allSessions s)) \<longrightarrow>
      allSessions (deleteSession f i s) = allSessions s) \<and>
   deleteSession f i (deleteSession f i s) = deleteSession f i s"
proof -
  have a: "allSessions (deleteSession f i s) = filter (\<lambda>r. id_sess r \<noteq> i) (allSessions s)"
    by (simp add: deleteSession_def Let_def)
  have b: "length (allSessions s) = length (filter (\<lambda>r. id_sess r \<noteq> i) (allSessions s))
       + length (filter (\<lambda>r. id_sess r = i) (allSessions s))"
    using sum_length_filter_compl [of "\<lambda>r. id_sess r = i" "allSessions s"] by simp
  have c: "i \<notin> set (map id_sess (allSessions s)) \<Longrightarrow>
      filter (\<lambda>r. id_sess r \<noteq> i) (allSessions s) = allSessions s"
    by (auto simp add: filter_id_conv)
  have d: "deleteSession f i (deleteSession f i s) = deleteSession f i s"
    by (simp add: deleteSession_def Let_def)
  from a b c d length_filter_distinct_id [of "allSessions s" i] show ?thesis
    by simp
qed

theorem deleteSession_filter_idempotent_witness:
  "map id_sess (allSessions two_sessions) = [7, 5] \<and>
   distinct (map id_sess (allSessions two_sessions)) \<and>
   map id_sess (allSessions (deleteSession no_json 5 two_sessions)) = [7] \<and>
   (8::int) \<notin> set (map id_sess (allSessions two_sessions)) \<and>
   allSessions (deleteSession no_json 8 two_sessions) = allSessions two_sessions \<and>
   deleteSession no_json 5 (deleteSession no_json 5 two_sessions)
     = deleteSession no_json 5 two_sessions"
  using deleteSession_filter_idempotent [of no_json 5 two_sessions]
        deleteSession_filter_idempotent [of no_json 8 two_sessions]
  by (simp add: two_sessions_def demo_defs op_defs max_with_0_def sum_durations_def)

text \<open>
  C9. Deleting a session leaves the personal best alone, in memory and in storage,
  whatever the archive, the id and the current best are.
\<close>

theorem deleteSession_keeps_personalBest:
  "personalBest (deleteSession f i s) = personalBest s \<and>
   ls_pb (deleteSession f i s) = ls_pb s"
  by (simp add: deleteSession_def Let_def)

section \<open>Elapsed time and pauses\<close>

lemma timer_ok_init: "timer_ok (init_app pb sess)"
  by (simp add: timer_ok_def init_app_def)

lemma timer_ok_load: "timer_ok s \<Longrightarrow> timer_ok (load P s)"
  by (simp add: timer_ok_def load_def Let_def split: option.splits)

lemma timer_ok_effect:
  "timer_ok old \<Longrightarrow> timerOn new = timerOn old \<Longrightarrow> timer_ok (timer_effect now old new)"
  by (auto simp add: timer_ok_def timer_effect_def)

lemma timer_ok_tick: "timer_ok s \<Longrightarrow> timer_ok (tick now s)"
  by (simp add: timer_ok_def tick_def Let_def)

lemma timer_ok_recordThought: "timer_ok s \<Longrightarrow> timer_ok (recordThought now s)"
  by (simp add: timer_ok_def recordThought_def Let_def)

lemma timer_ok_deleteSession: "timer_ok s \<Longrightarrow> timer_ok (deleteSession f i s)"
  by (simp add: timer_ok_def deleteSession_def Let_def)

lemma timer_ok_step: "timer_ok s \<Longrightarrow> timer_ok (step f e s)"
proof (cases e)
  case (End a b c d)
  assume "timer_ok s"
  then show ?thesis
    unfolding End step.simps endSession_def Let_def
    by (intro timer_ok_effect) simp_all
qed (simp_all add: startSession_def togglePause_def timer_ok_effect timer_ok_tick
       timer_ok_recordThought timer_ok_deleteSession)

lemma timer_ok_run: "timer_ok s \<Longrightarrow> timer_ok (run f evs s)"
  by (induction evs arbitrary: s) (simp_all add: timer_ok_step)

lemma tick_paused: "timer_ok s \<Longrightarrow> isPaused s \<Longrightarrow> tick now s = s"
  by (simp add: timer_ok_def tick_def)

lemma tick_running:
  "timer_ok s \<Longrightarrow> isActive s \<Longrightarrow> \<not> isPaused s \<Longrightarrow>
   tick now s = s\<lparr>currentInterval := currentInterval s + (now - lastUpdateRef s),
                  lastUpdateRef := now\<rparr>"
  by (simp add: timer_ok_def tick_def Let_def)

lemma togglePause_active:
  "isActive s \<Longrightarrow>
   togglePause now s =
     (if isPaused s then s\<lparr>isPaused := False, timerOn := True, lastUpdateRef := now\<rparr>
      else s\<lparr>isPaused := True, timerOn := False\<rparr>)"
  by (simp add: togglePause_def timer_effect_def)

lemma elapsed_timer_events:
  "timer_ok s \<Longrightarrow> isActive s \<Longrightarrow> list_all is_timer_event tes \<Longrightarrow>
   currentInterval (run f tes s) =
     currentInterval s + unpaused_deltas (\<not> isPaused s) (lastUpdateRef s) tes"
proof (induction tes arbitrary: s)
  case Nil
  show ?case by simp
next
  case (Cons e es)
  from Cons.prems have es: "list_all is_timer_event es"
    by simp
  show ?case
  proof (cases e)
    case (Tick t)
    show ?thesis
    proof (cases "isPaused s")
      case True
      with Cons.prems have "tick t s = s"
        by (simp add: tick_paused)
      with Cons.IH [of s] Cons.prems es True Tick show ?thesis
        by simp
    next
      case False
      let ?s' = "tick t s"
      from Cons.prems False
      have s': "?s' = s\<lparr>currentInterval := currentInterval s + (t - lastUpdateRef s),
                        lastUpdateRef := t\<rparr>"
        by (simp add: tick_running)
      have "timer_ok ?s'"
        using Cons.prems by (simp add: timer_ok_tick)
      moreover have "isActive ?s'"
        using Cons.prems s' by simp
      ultimately have "currentInterval (run f es ?s') =
        currentInterval ?s' + unpaused_deltas (\<not> isPaused ?s') (lastUpdateRef ?s') es"
        using es by (rule Cons.IH)
      then show ?thesis
        using False Tick s' by simp
    qed
  next
    case (TogglePause t)
    let ?s' = "togglePause t s"
    from Cons.prems
    have s': "?s' = (if isPaused s
                     then s\<lparr>isPaused := False, timerOn := True, lastUpdateRef := t\<rparr>
                     else s\<lparr>isPaused := True, timerOn := False\<rparr>)"
      by (simp add: togglePause_active)
    have "timer_ok ?s'"
      using timer_ok_step [of s f "TogglePause t"] Cons.prems by simp
    moreover have "isActive ?s'"
      using Cons.prems s' by simp
    ultimately have "currentInterval (run f es ?s') =
        currentInterval ?s' + unpaused_deltas (\<not> isPaused ?s') (lastUpdateRef ?s') es"
      using es by (rule Cons.IH)
    then show ?thesis
      using TogglePause s' by (cases "isPaused s") simp_all
  qed (use Cons.prems in simp_all)
qed

lemma unpaused_deltas_paused_ticks:
  "unpaused_deltas False since (map Tick ps @ es) = unpaused_deltas False since es"
  by (induction ps) simp_all

lemma timer_events_pause_resume:
  "list_all is_timer_event (TogglePause p # map Tick ps @ [TogglePause r, Tick t])"
  by (induction ps) simp_all

text \<open>
  C8. In every state \<open>s\<close> the component reaches from its initial load: a tick while paused
  changes nothing; when the session is running, a pause, any ticks during the pause, a
  resume at \<open>r\<close> and a tick at \<open>t\<close> advance the elapsed time by \<open>t - r\<close> only; and over any
  trace of ticks and pause toggles of an active session the elapsed time grows by the sum
  of the un-paused deltas, as \<open>unpaused_deltas\<close> defines it.
\<close>

theorem elapsed_excludes_paused_time:
  "(let s = run f evs (load P (init_app pb sess)) in
    (isPaused s \<longrightarrow> tick now s = s) \<and>
    (isActive s \<and> \<not> isPaused s \<longrightarrow>
       currentInterval (run f (TogglePause p # map Tick ps @ [TogglePause r, Tick t]) s)
         = currentInterval s + (t - r)) \<and>
    (isActive s \<and> list_all is_timer_event tes \<longrightarrow>
       currentInterval (run f tes s)
         = currentInterval s + unpaused_deltas (\<not> isPaused s) (lastUpdateRef s) tes))"
proof -
  define s where "s = run f evs (load P (init_app pb sess))"
  have ok: "timer_ok s"
    unfolding s_def by (intro timer_ok_run timer_ok_load timer_ok_init)
  have a: "isPaused s \<longrightarrow> tick now s = s"
    using ok by (simp add: tick_paused)
  have c: "currentInterval (run f xs s)
         = currentInterval s + unpaused_deltas (\<not> isPaused s) (lastUpdateRef s) xs"
    if "isActive s" "list_all is_timer_event xs" for xs
    using ok that by (rule elapsed_timer_events)
  have b: "currentInterval (run f (TogglePause p # map Tick ps @ [TogglePause r, Tick t]) s)
         = currentInterval s + (t - r)" if "isActive s" "\<not> isPaused s"
    using c [OF that(1) timer_events_pause_resume [of p ps r t]] that(2)
    by (simp add: unpaused_deltas_paused_ticks)
  from a b c show ?thesis
    unfolding s_def [symmetric] Let_def by blast
qed

theorem elapsed_excludes_paused_time_witness:
  "(let s = run no_json [Start 0 0, Tick 100, Tick 200, Tick 300, Tick 400, Tick 500]
              (load reject_all (init_app None None)) in
     isActive s \<and> \<not> isPaused s \<and> currentInterval s = 500 \<and>
     isPaused (togglePause 530 s) \<and> tick 600 (togglePause 530 s) = togglePause 530 s \<and>
     currentInterval
       (run no_json (TogglePause 530 # map Tick [600, 700, 800] @ [TogglePause 9050, Tick 9150]) s)
       = 600 \<and>
     list_all is_timer_event [Tick 600, TogglePause 630, Tick 700, TogglePause 1000, Tick 1100] \<and>
     currentInterval
       (run no_json [Tick 600, TogglePause 630, Tick 700, TogglePause 1000, Tick 1100] s) = 700)"
  using elapsed_excludes_paused_time
     [of no_json "[Start 0 0, Tick 100, Tick 200, Tick 300, Tick 400, Tick 500]"
         reject_all None None 0 530 "[600, 700, 800]" 9050 9150
         "[Tick 600, TogglePause 630, Tick 700, TogglePause 1000, Tick 1100]"]
    elapsed_excludes_paused_time
     [of no_json "[Start 0 0, Tick 100, Tick 200, Tick 300, Tick 400, Tick 500, TogglePause 530]"
         reject_all None None 600 0 "[]" 0 0 "[]"]
  by (simp add: demo_defs reject_all_def op_defs load_def)

end
